theory Spec2Isabelle
  imports Complex_Main "HOL-Library.Sublist"
begin

section \<open>PostOp-RN: the pose overlay of \<open>App.tsx\<close>\<close>

text \<open>
  The component \<open>App\<close> shows a camera preview, runs a pose detector on every frame and
  draws the detected keypoints over the preview. This theory embeds the parts of
  \<open>App.tsx\<close> that decide what is drawn (\<open>isPortrait\<close>, \<open>getOutputTensorWidth\<close>,
  \<open>getOutputTensorHeight\<close>, \<open>renderPose\<close>) and the frame loop with its life cycle
  (\<open>handleCameraStream\<close>, \<open>loop\<close>, the two \<open>useEffect\<close> hooks).

  JavaScript numbers are modelled as exact numbers: coordinates and scores are
  \<^typ>\<open>real\<close>, clock readings (\<open>Date.now()\<close>, whole milliseconds) are \<^typ>\<open>int\<close>.
  The rounding of binary64 numbers is modelled where a property depends on it: for the
  subtraction that mirrors a coordinate (\<open>flipped_x_binary64\<close>).
\<close>

subsection \<open>Platform, constants\<close>

text \<open>\<open>Platform.OS\<close>: \<open>'android'\<close>, \<open>'ios'\<close>, or another value (\<open>'web'\<close>, \<open>'windows'\<close>, \<open>'macos'\<close>).\<close>

datatype platform_os = Android | IOS | OtherOS

text \<open>What the module reads from its surroundings when it is loaded:
  \<open>Platform.OS\<close> and \<open>Dimensions.get('window').width\<close>.\<close>

record env =
  os :: platform_os
  window_width :: real

definition IS_ANDROID :: "env \<Rightarrow> bool" where
  "IS_ANDROID e = (os e = Android)"

definition IS_IOS :: "env \<Rightarrow> bool" where
  "IS_IOS e = (os e = IOS)"

definition CAM_PREVIEW_WIDTH :: "env \<Rightarrow> real" where
  "CAM_PREVIEW_WIDTH e = window_width e"

definition CAM_PREVIEW_HEIGHT :: "env \<Rightarrow> real" where
  "CAM_PREVIEW_HEIGHT e = CAM_PREVIEW_WIDTH e / (if IS_IOS e then 9 / 16 else 3 / 4)"

definition OUTPUT_TENSOR_WIDTH :: real where
  "OUTPUT_TENSOR_WIDTH = 180"

definition OUTPUT_TENSOR_HEIGHT :: "env \<Rightarrow> real" where
  "OUTPUT_TENSOR_HEIGHT e = OUTPUT_TENSOR_WIDTH / (if IS_IOS e then 9 / 16 else 3 / 4)"

definition MIN_KEYPOINT_SCORE :: real where
  "MIN_KEYPOINT_SCORE = 3 / 10"

definition AUTO_RENDER :: bool where
  "AUTO_RENDER = False"

subsection \<open>Data\<close>

text \<open>\<open>ScreenOrientation.Orientation\<close>.\<close>

datatype Orientation = UNKNOWN | PORTRAIT_UP | PORTRAIT_DOWN | LANDSCAPE_LEFT | LANDSCAPE_RIGHT

text \<open>\<open>CameraType.front\<close> and \<open>CameraType.back\<close>.\<close>

datatype CameraType = Front | Back

text \<open>\<open>posedetection.Keypoint\<close>: \<open>x\<close>, \<open>y\<close>, and the optional \<open>score\<close> and \<open>name\<close>.\<close>

record Keypoint =
  kp_x :: real
  kp_y :: real
  kp_score :: "real option"
  kp_name :: "string option"

text \<open>\<open>posedetection.Pose\<close>: the keypoints and the optional score of the pose.\<close>

record Pose =
  keypoints :: "Keypoint list"
  pose_score :: "real option"

text \<open>A detector is known by an identity only; so is a \<open>tf.Tensor3D\<close>.\<close>

type_synonym detector = nat
type_synonym tensor = nat

text \<open>The values \<open>Math.floor(1000 / latency)\<close> takes for a whole number \<open>latency\<close>.\<close>

datatype jsnum = Num int | Infinity

text \<open>The state of the component: its six \<open>useState\<close> cells.\<close>

record app =
  tfReady :: bool
  cameraType :: CameraType
  model :: "detector option"
  fps :: jsnum
  poses :: "Pose list option"
  orientation :: "Orientation option"

text \<open>What \<open>renderPose\<close> returns: an empty \<open>View\<close>, or an \<open>Svg\<close> of \<open>Circle\<close> elements.\<close>

record circle =
  key :: string
  cx :: real
  cy :: real
  r :: string
  strokeWidth :: string
  fill :: string
  stroke :: string

datatype element = View | Svg "circle list"

subsection \<open>Rendering the pose\<close>

definition isPortrait :: "'a app_scheme \<Rightarrow> bool" where
  "isPortrait a =
     (orientation a = Some PORTRAIT_UP \<or> orientation a = Some PORTRAIT_DOWN)"

definition getOutputTensorWidth :: "env \<Rightarrow> 'a app_scheme \<Rightarrow> real" where
  "getOutputTensorWidth e a =
     (if isPortrait a \<or> IS_ANDROID e then OUTPUT_TENSOR_WIDTH else OUTPUT_TENSOR_HEIGHT e)"

definition getOutputTensorHeight :: "env \<Rightarrow> 'a app_scheme \<Rightarrow> real" where
  "getOutputTensorHeight e a =
     (if isPortrait a \<or> IS_ANDROID e then OUTPUT_TENSOR_HEIGHT e else OUTPUT_TENSOR_WIDTH)"

text \<open>\<open>k.score ?? 0\<close>.\<close>

definition score_or_0 :: "Keypoint \<Rightarrow> real" where
  "score_or_0 k = (case kp_score k of None \<Rightarrow> 0 | Some s \<Rightarrow> s)"

text \<open>The template string \<open>`skeletonkp_${k.name}`\<close>; an absent name prints as \<open>undefined\<close>.\<close>

definition circle_key :: "Keypoint \<Rightarrow> string" where
  "circle_key k = ''skeletonkp_'' @ (case kp_name k of None \<Rightarrow> ''undefined'' | Some n \<Rightarrow> n)"

text \<open>The two local constants \<open>flipX\<close> and \<open>x\<close> of the function given to \<open>.map\<close>
  in \<open>renderPose\<close>.\<close>

definition flipX :: "env \<Rightarrow> 'a app_scheme \<Rightarrow> bool" where
  "flipX e a = (IS_ANDROID e \<or> cameraType a = Back)"

definition flipped_x :: "env \<Rightarrow> 'a app_scheme \<Rightarrow> Keypoint \<Rightarrow> real" where
  "flipped_x e a k = (if flipX e a then getOutputTensorWidth e a - kp_x k else kp_x k)"

text \<open>The function given to \<open>.map\<close> in \<open>renderPose\<close>.\<close>

definition to_circle :: "env \<Rightarrow> 'a app_scheme \<Rightarrow> Keypoint \<Rightarrow> circle" where
  "to_circle e a k =
     (let x = flipped_x e a k;
          y = kp_y k;
          cx = (x / getOutputTensorWidth e a) *
                 (if isPortrait a then CAM_PREVIEW_WIDTH e else CAM_PREVIEW_HEIGHT e);
          cy = (y / getOutputTensorHeight e a) *
                 (if isPortrait a then CAM_PREVIEW_HEIGHT e else CAM_PREVIEW_WIDTH e)
      in \<lparr>key = circle_key k, cx = cx, cy = cy, r = ''4'', strokeWidth = ''2'',
          fill = ''#00AA00'', stroke = ''white''\<rparr>)"

definition renderPose :: "env \<Rightarrow> 'a app_scheme \<Rightarrow> element" where
  "renderPose e a =
     (case poses a of
        None \<Rightarrow> View
      | Some [] \<Rightarrow> View
      | Some (p # ps) \<Rightarrow>
          Svg (map (to_circle e a)
                 (filter (\<lambda>k. score_or_0 k > MIN_KEYPOINT_SCORE) (keypoints p))))"

subsection \<open>The mirror with the subtraction rounded\<close>

text \<open>
  A JavaScript number is a binary64 number, and \<open>-\<close> gives the binary64 number nearest
  to the exact difference, the one with the even significand when two are equally near.
  \<open>pow2 k\<close> is 2 to the power \<open>k\<close>, for a whole number \<open>k\<close>; \<open>round_even\<close> rounds to the
  nearest whole number, a half to the even one; \<open>binary64 v\<close> rounds \<open>v\<close> to 53
  significant bits. The range of the exponent is not bounded here: it is the rounding of
  binary64 for the values of normal size (from 2 to the power -1022 up to 2 to the power
  1024), where the coordinates of this program lie.
\<close>

definition pow2 :: "int \<Rightarrow> real" where
  "pow2 k = (if 0 \<le> k then 2 ^ nat k else 1 / 2 ^ nat (- k))"

definition round_even :: "real \<Rightarrow> int" where
  "round_even y =
     (let n = \<lfloor>y\<rfloor>; f = y - of_int n
      in if f < 1 / 2 then n else if 1 / 2 < f then n + 1 else if even n then n else n + 1)"

definition binary64 :: "real \<Rightarrow> real" where
  "binary64 v =
     (if v = 0 then 0
      else (let u = pow2 (\<lfloor>log 2 \<bar>v\<bar>\<rfloor> - 52) in of_int (round_even (v / u)) * u))"

text \<open>The local constant \<open>x\<close> of \<open>renderPose\<close> again, with the subtraction
  \<open>getOutputTensorWidth() - k.x\<close> rounded as the program rounds it.\<close>

definition flipped_x_binary64 :: "env \<Rightarrow> 'a app_scheme \<Rightarrow> Keypoint \<Rightarrow> real" where
  "flipped_x_binary64 e a k =
     (if flipX e a then binary64 (getOutputTensorWidth e a - kp_x k) else kp_x k)"

subsection \<open>The frame loop and the life cycle of the component\<close>

text \<open>
  The component runs on one event loop. What the code does between two points where it
  waits is one step of the model; what it waits for arrives as an \<open>event\<close> that carries
  the values the surroundings supply (the next value of the camera stream, the readings
  of \<open>Date.now()\<close>, the outcome of a promise). Every call the code makes to a
  collaborator is recorded, in order, in the \<open>trace\<close>.
\<close>

datatype action =
    ImagesNext "tensor option"
  | ThrowNoModel
  | EstimatePoses detector tensor int
  | EstimateRejected
  | SetFps jsnum
  | SetPoses "Pose list"
  | Dispose tensor
  | UpdatePreview
  | EndFrameEXP
  | RequestAnimationFrame nat
  | CancelAnimationFrame nat
  | SetOrientation Orientation
  | SetTfReady
  | SetModel detector
  | LogModelError

text \<open>How far the asynchronous function of the first \<open>useEffect\<close> has come: the promise
  it is waiting for.\<close>

datatype init_stage =
  AwaitOrientation | AwaitPermission | AwaitTfReady | AwaitDetector | InitDone

text \<open>
  The whole system: the state cells, the ref \<open>rafId\<close> (\<open>None\<close> is \<open>null\<close>), and the
  run-time context: whether the component is mounted, the stage of the first effect,
  whether \<open>TensorCamera\<close> has called \<open>onReady\<close>, the value of \<open>model\<close> in the closure
  that \<open>onReady\<close> received, the invocations of \<open>loop\<close> that wait for \<open>estimatePoses\<close>
  (each with its \<open>imageTensor\<close> and \<open>startTs\<close>), the animation frames requested and
  neither run nor cancelled, the last handle \<open>requestAnimationFrame\<close> returned, and the
  trace.
\<close>

record sys = app +
  rafId :: "nat option"
  mounted :: bool
  stage :: init_stage
  cameraReady :: bool
  loopModel :: "detector option"
  suspended :: "(tensor \<times> int) list"
  frames :: "nat list"
  lastHandle :: nat
  trace :: "action list"

text \<open>The component when it has just been mounted: the initial values of the state cells,
  \<open>rafId.current = null\<close>, and \<open>getOrientationAsync\<close> pending.\<close>

definition initial :: sys where
  "initial =
     \<lparr>tfReady = False, cameraType = Front, model = None, fps = Num 0, poses = None,
      orientation = None, rafId = None, mounted = True, stage = AwaitOrientation,
      cameraReady = False, loopModel = None, suspended = [], frames = [], lastHandle = 0,
      trace = []\<rparr>"

definition emit :: "action list \<Rightarrow> sys \<Rightarrow> sys" where
  "emit as s = s\<lparr>trace := trace s @ as\<rparr>"

text \<open>\<open>requestAnimationFrame\<close> returns a fresh handle, which is never \<open>0\<close>;
  \<open>cancelAnimationFrame\<close> drops the request with the handle given, if there is one.\<close>

definition requestAnimationFrame :: "sys \<Rightarrow> nat \<times> sys" where
  "requestAnimationFrame s =
     (let h = Suc (lastHandle s)
      in (h, emit [RequestAnimationFrame h] (s\<lparr>frames := frames s @ [h], lastHandle := h\<rparr>)))"

definition cancelAnimationFrame :: "nat \<Rightarrow> sys \<Rightarrow> sys" where
  "cancelAnimationFrame h s =
     emit [CancelAnimationFrame h] (s\<lparr>frames := removeAll h (frames s)\<rparr>)"

text \<open>\<open>Math.floor(1000 / latency)\<close>: dividing by \<open>0\<close> gives \<open>Infinity\<close>.\<close>

definition floor_1000_div :: "int \<Rightarrow> jsnum" where
  "floor_1000_div latency =
     (if latency = 0 then Infinity else Num \<lfloor>1000 / real_of_int latency\<rfloor>)"

text \<open>
  \<open>loop\<close>, from its call to the \<open>await\<close>: \<open>nextValue\<close> is \<open>images.next().value\<close>,
  \<open>now1\<close> and \<open>now2\<close> are the two readings of \<open>Date.now()\<close>. The invocation either
  throws or calls \<open>estimatePoses\<close> and waits.
\<close>

definition loop :: "tensor option \<Rightarrow> int \<Rightarrow> int \<Rightarrow> sys \<Rightarrow> sys" where
  "loop nextValue now1 now2 s =
     (let s1 = emit [ImagesNext nextValue] s
      in case (loopModel s1, nextValue) of
           (Some m, Some imageTensor) \<Rightarrow>
             emit [EstimatePoses m imageTensor now2]
               (s1\<lparr>suspended := suspended s1 @ [(imageTensor, now1)]\<rparr>)
         | _ \<Rightarrow> emit [ThrowNoModel] s1)"

text \<open>
  \<open>loop\<close>, from the \<open>await\<close> to its end, for the invocation that holds \<open>imageTensor\<close>
  and \<open>startTs\<close>: \<open>outcome\<close> is \<open>None\<close> when \<open>estimatePoses\<close> rejects (the invocation
  ends there) and the poses otherwise; \<open>now3\<close> is the reading of \<open>Date.now()\<close>.
\<close>

definition loop_resume :: "tensor \<Rightarrow> int \<Rightarrow> Pose list option \<Rightarrow> int \<Rightarrow> sys \<Rightarrow> sys" where
  "loop_resume imageTensor startTs outcome now3 s =
     (case outcome of
        None \<Rightarrow> emit [EstimateRejected] s
      | Some ps \<Rightarrow>
          (let latency = now3 - startTs;
               s1 = emit [SetFps (floor_1000_div latency), SetPoses ps, Dispose imageTensor]
                      (s\<lparr>fps := floor_1000_div latency, poses := Some ps\<rparr>)
           in if rafId s1 = Some 0 then s1
              else (let s2 = (if \<not> AUTO_RENDER then emit [UpdatePreview, EndFrameEXP] s1 else s1);
                        (h, s3) = requestAnimationFrame s2
                    in s3\<lparr>rafId := Some h\<rparr>)))"

text \<open>\<open>handleCameraStream\<close>: the closure was made in a render, so \<open>loop\<close> sees the
  \<open>model\<close> of that render from then on; it calls \<open>loop\<close> once.\<close>

definition handleCameraStream :: "tensor option \<Rightarrow> int \<Rightarrow> int \<Rightarrow> sys \<Rightarrow> sys" where
  "handleCameraStream nextValue now1 now2 s = loop nextValue now1 now2 (s\<lparr>loopModel := model s\<rparr>)"

text \<open>The function the second \<open>useEffect\<close> returns, called when the component is unmounted.\<close>

definition cleanup :: "sys \<Rightarrow> sys" where
  "cleanup s =
     (case rafId s of
        None \<Rightarrow> s
      | Some h \<Rightarrow> if h \<noteq> 0 then (cancelAnimationFrame h s)\<lparr>rafId := Some 0\<rparr> else s)"

text \<open>
  The events: the promises of the first effect settle in the order the code awaits them;
  the orientation listener fires; \<open>TensorCamera\<close> (rendered when \<open>tfReady\<close>) calls
  \<open>onReady\<close>, once; a requested animation frame runs \<open>loop\<close>; the \<open>estimatePoses\<close> of
  a waiting invocation (given by its position) settles; the component is unmounted.
\<close>

datatype event =
    OrientationResolved Orientation
  | OrientationChanged Orientation
  | PermissionResolved
  | TfReady
  | DetectorCreated detector
  | DetectorFailed
  | CameraReady "tensor option" int int
  | AnimationFrame nat "tensor option" int int
  | EstimateSettled nat "Pose list option" int
  | Unmount

text \<open>One event. An event that cannot happen in the state leaves it as it is.\<close>

fun step :: "event \<Rightarrow> sys \<Rightarrow> sys" where
  "step (OrientationResolved ori) s =
     (if stage s = AwaitOrientation
      then emit [SetOrientation ori] (s\<lparr>orientation := Some ori, stage := AwaitPermission\<rparr>)
      else s)"
| "step (OrientationChanged ori) s =
     (if stage s \<noteq> AwaitOrientation
      then emit [SetOrientation ori] (s\<lparr>orientation := Some ori\<rparr>)
      else s)"
| "step PermissionResolved s =
     (if stage s = AwaitPermission then s\<lparr>stage := AwaitTfReady\<rparr> else s)"
| "step TfReady s =
     (if stage s = AwaitTfReady
      then emit [SetTfReady] (s\<lparr>tfReady := True, stage := AwaitDetector\<rparr>)
      else s)"
| "step (DetectorCreated d) s =
     (if stage s = AwaitDetector
      then emit [SetModel d] (s\<lparr>model := Some d, stage := InitDone\<rparr>)
      else s)"
| "step DetectorFailed s =
     (if stage s = AwaitDetector then emit [LogModelError] (s\<lparr>stage := InitDone\<rparr>) else s)"
| "step (CameraReady nextValue now1 now2) s =
     (if mounted s \<and> tfReady s \<and> \<not> cameraReady s
      then handleCameraStream nextValue now1 now2 (s\<lparr>cameraReady := True\<rparr>)
      else s)"
| "step (AnimationFrame h nextValue now1 now2) s =
     (if h \<in> set (frames s)
      then loop nextValue now1 now2 (s\<lparr>frames := removeAll h (frames s)\<rparr>)
      else s)"
| "step (EstimateSettled i outcome now3) s =
     (if i < length (suspended s)
      then (case suspended s ! i of
              (imageTensor, startTs) \<Rightarrow>
                loop_resume imageTensor startTs outcome now3
                  (s\<lparr>suspended := take i (suspended s) @ drop (Suc i) (suspended s)\<rparr>))
      else s)"
| "step Unmount s =
     (if mounted s then cleanup (s\<lparr>mounted := False\<rparr>) else s)"

text \<open>A run of the component: the events in the order they happen, from the mount.\<close>

definition run :: "event list \<Rightarrow> sys" where
  "run evs = foldl (\<lambda>s ev. step ev s) initial evs"

subsection \<open>Measures on traces\<close>

text \<open>The tensors acquired and the tensors released in a trace.\<close>

fun acquired :: "action list \<Rightarrow> tensor list" where
  "acquired [] = []"
| "acquired (ImagesNext (Some t) # as) = t # acquired as"
| "acquired (_ # as) = acquired as"

fun released :: "action list \<Rightarrow> tensor list" where
  "released [] = []"
| "released (Dispose t # as) = t # released as"
| "released (_ # as) = released as"

text \<open>The number of calls of \<open>estimatePoses\<close> in a trace.\<close>

fun estimates :: "action list \<Rightarrow> nat" where
  "estimates [] = 0"
| "estimates (EstimatePoses m t ts # as) = Suc (estimates as)"
| "estimates (_ # as) = estimates as"

text \<open>The detectors created in a trace.\<close>

fun created :: "action list \<Rightarrow> detector set" where
  "created [] = {}"
| "created (SetModel d # as) = insert d (created as)"
| "created (_ # as) = created as"

text \<open>Every call of \<open>estimatePoses\<close> in the trace is on a detector of \<open>ds\<close> or on one
  created earlier in the trace.\<close>

fun est_ok :: "detector set \<Rightarrow> action list \<Rightarrow> bool" where
  "est_ok ds [] = True"
| "est_ok ds (SetModel d # as) = est_ok (insert d ds) as"
| "est_ok ds (EstimatePoses m t ts # as) = (m \<in> ds \<and> est_ok ds as)"
| "est_ok ds (_ # as) = est_ok ds as"

text \<open>
  The stages of the pipeline of one frame, as they show in the actions of \<open>loop\<close>:
  nothing begun yet, the next value of the stream taken, \<open>estimatePoses\<close> called, the
  rate recorded, the poses recorded, the tensor released, the preview updated, the frame
  ended, the next animation frame requested; or the iteration has thrown. The stages
  from the taking of a tensor to its release hold that tensor.
\<close>

datatype phase =
    Idle
  | Begun "tensor option"
  | Estimating tensor
  | RateSet tensor
  | PosesSet tensor
  | Released
  | Previewed
  | FrameEnded
  | Scheduled
  | Raised "tensor option"

fun holding :: "phase \<Rightarrow> tensor list" where
  "holding (Begun (Some t)) = [t]"
| "holding (Estimating t) = [t]"
| "holding (RateSet t) = [t]"
| "holding (PosesSet t) = [t]"
| "holding (Raised (Some t)) = [t]"
| "holding _ = []"

text \<open>
  One action moves the pipeline one stage on, in this order only; an iteration begins
  only when none has begun before or the one before has requested the next animation
  frame. The actions of the effects (orientation, \<open>tfReady\<close>, the model, cancelling a
  frame) leave the stage as it is. \<open>None\<close> says that the action is out of order.
\<close>

fun advance :: "phase \<Rightarrow> action \<Rightarrow> phase option" where
  "advance ph (ImagesNext v) = (if ph = Idle \<or> ph = Scheduled then Some (Begun v) else None)"
| "advance ph ThrowNoModel = (case ph of Begun v \<Rightarrow> Some (Raised v) | _ \<Rightarrow> None)"
| "advance ph (EstimatePoses m t ts) =
     (if ph = Begun (Some t) then Some (Estimating t) else None)"
| "advance ph EstimateRejected =
     (case ph of Estimating t \<Rightarrow> Some (Raised (Some t)) | _ \<Rightarrow> None)"
| "advance ph (SetFps f) = (case ph of Estimating t \<Rightarrow> Some (RateSet t) | _ \<Rightarrow> None)"
| "advance ph (SetPoses ps) = (case ph of RateSet t \<Rightarrow> Some (PosesSet t) | _ \<Rightarrow> None)"
| "advance ph (Dispose t) = (if ph = PosesSet t then Some Released else None)"
| "advance ph UpdatePreview = (if ph = Released then Some Previewed else None)"
| "advance ph EndFrameEXP = (if ph = Previewed then Some FrameEnded else None)"
| "advance ph (RequestAnimationFrame h) = (if ph = FrameEnded then Some Scheduled else None)"
| "advance ph (CancelAnimationFrame h) = Some ph"
| "advance ph (SetOrientation ori) = Some ph"
| "advance ph SetTfReady = Some ph"
| "advance ph (SetModel d) = Some ph"
| "advance ph LogModelError = Some ph"

fun pipeline :: "phase \<Rightarrow> action list \<Rightarrow> phase option" where
  "pipeline ph [] = Some ph"
| "pipeline ph (a # as) = (case advance ph a of None \<Rightarrow> None | Some ph' \<Rightarrow> pipeline ph' as)"

text \<open>The circles of an element.\<close>

fun circles_of :: "element \<Rightarrow> circle list" where
  "circles_of View = []"
| "circles_of (Svg cs) = cs"

subsection \<open>Invariants of the runs\<close>

text \<open>The model the component holds, and the one the loop sees, have been created.\<close>

definition inv_model :: "sys \<Rightarrow> bool" where
  "inv_model s =
     (est_ok {} (trace s) \<and>
      (case model s of None \<Rightarrow> True | Some m \<Rightarrow> m \<in> created (trace s)) \<and>
      (case loopModel s of None \<Rightarrow> True | Some m \<Rightarrow> m \<in> created (trace s)))"

text \<open>
  The trace is a sequence of pipelines in order, and the stage it has reached agrees with
  the state: an invocation that waits is the only one, is in the stage \<open>Estimating\<close> and
  no frame is requested; a requested frame is the only one, is the one \<open>rafId\<close> names,
  and the pipeline before it is complete; before \<open>onReady\<close> nothing has begun.
\<close>

definition inv_pipeline :: "sys \<Rightarrow> bool" where
  "inv_pipeline s =
     (\<exists>ph. pipeline Idle (trace s) = Some ph \<and>
        (suspended s \<noteq> [] \<longrightarrow>
           (\<exists>t ts. suspended s = [(t, ts)] \<and> ph = Estimating t) \<and> frames s = []) \<and>
        (frames s \<noteq> [] \<longrightarrow>
           ph = Scheduled \<and> frames s = [lastHandle s] \<and> rafId s = Some (lastHandle s) \<and>
           lastHandle s \<noteq> 0) \<and>
        (\<not> cameraReady s \<longrightarrow>
           ph = Idle \<and> suspended s = [] \<and> frames s = [] \<and> rafId s = None) \<and>
        (rafId s = None \<longrightarrow> frames s = []))"

text \<open>The loop has been stopped: the component is unmounted, no frame is requested, and
  an invocation that still waits will find \<open>rafId.current === 0\<close>.\<close>

definition stopped :: "sys \<Rightarrow> bool" where
  "stopped s =
     (\<not> mounted s \<and> frames s = [] \<and> (suspended s \<noteq> [] \<longrightarrow> rafId s = Some 0))"

section \<open>Properties\<close>

subsection \<open>The overlay\<close>

lemma key_to_circle: "key (to_circle e a k) = circle_key k"
  by (simp add: to_circle_def Let_def)

lemma distinct_map_neq:
  "distinct (map f (y # ys)) \<Longrightarrow> x \<in> set ys \<Longrightarrow> f x \<noteq> f y"
  by (auto simp: image_iff)

lemma excluded_key:
  "distinct (map f xs) \<Longrightarrow> x \<in> set xs \<Longrightarrow> \<not> P x \<Longrightarrow> f x \<notin> set (map f (filter P xs))"
proof (induction xs)
  case Nil
  then show ?case by simp
next
  case (Cons y ys)
  show ?case
  proof (cases "x = y")
    case True
    then show ?thesis using Cons.prems by force
  next
    case False
    then have xin: "x \<in> set ys" using Cons.prems(2) by simp
    have "f x \<noteq> f y" using distinct_map_neq[OF Cons.prems(1) xin] .
    moreover have "f x \<notin> set (map f (filter P ys))"
      using Cons.IH Cons.prems(1,3) xin by simp
    ultimately show ?thesis by simp
  qed
qed

lemma count_list_distinct_map:
  "distinct (map f xs) \<Longrightarrow> x \<in> set xs \<Longrightarrow> P x \<Longrightarrow> count_list (map f (filter P xs)) (f x) = 1"
proof (induction xs)
  case Nil
  then show ?case by simp
next
  case (Cons y ys)
  show ?case
  proof (cases "x = y")
    case True
    have "f y \<notin> set (map f ys)" using Cons.prems(1) by simp
    then have "f y \<notin> set (map f (filter P ys))" by auto
    then have "count_list (map f (filter P ys)) (f y) = 0" by (simp add: count_list_0_iff)
    with True Cons.prems(3) show ?thesis by simp
  next
    case False
    then have xin: "x \<in> set ys" using Cons.prems(2) by simp
    have "f x \<noteq> f y" using distinct_map_neq[OF Cons.prems(1) xin] .
    moreover have "count_list (map f (filter P ys)) (f x) = 1"
      using Cons.IH Cons.prems(1,3) xin by simp
    ultimately show ?thesis by simp
  qed
qed

text \<open>
  Claim C4. When there is a pose to draw and the keypoints of the first pose have
  distinct keys, the overlay holds one circle for each keypoint whose score (an absent
  score counting as 0) is above 0.3, in the order of the pose: a keypoint with score at
  most 0.3 has no circle, and a keypoint with score above 0.3 has its circle, exactly once.
\<close>

theorem C4_threshold_filter:
  assumes "poses a = Some (p # ps)"
    and "distinct (map circle_key (keypoints p))"
  shows "renderPose e a = Svg (circles_of (renderPose e a)) \<and>
     map key (circles_of (renderPose e a)) =
       map circle_key (filter (\<lambda>k. (case kp_score k of None \<Rightarrow> 0 | Some s \<Rightarrow> s) > 3 / 10) (keypoints p)) \<and>
     (\<forall>k \<in> set (keypoints p).
        (case kp_score k of None \<Rightarrow> 0 | Some s \<Rightarrow> s) \<le> 3 / 10 \<longrightarrow>
          circle_key k \<notin> set (map key (circles_of (renderPose e a)))) \<and>
     (\<forall>k \<in> set (keypoints p).
        (case kp_score k of None \<Rightarrow> 0 | Some s \<Rightarrow> s) > 3 / 10 \<longrightarrow>
          to_circle e a k \<in> set (circles_of (renderPose e a)) \<and>
          count_list (map key (circles_of (renderPose e a))) (circle_key k) = 1)"
proof -
  let ?P = "\<lambda>k. (case kp_score k of None \<Rightarrow> 0 | Some s \<Rightarrow> s) > (3 / 10 :: real)"
  have P: "(\<lambda>k. score_or_0 k > MIN_KEYPOINT_SCORE) = ?P"
    by (simp add: score_or_0_def MIN_KEYPOINT_SCORE_def)
  have r: "circles_of (renderPose e a) = map (to_circle e a) (filter ?P (keypoints p))"
    and r': "renderPose e a = Svg (circles_of (renderPose e a))"
    using assms(1) by (simp_all add: renderPose_def P)
  have keys: "map key (circles_of (renderPose e a)) = map circle_key (filter ?P (keypoints p))"
    unfolding r by (simp add: key_to_circle comp_def)
  have excl: "circle_key k \<notin> set (map key (circles_of (renderPose e a)))"
    if "k \<in> set (keypoints p)" "(case kp_score k of None \<Rightarrow> 0 | Some s \<Rightarrow> s) \<le> (3 / 10 :: real)" for k
  proof -
    have "\<not> ?P k" using that(2) by simp
    with excluded_key[of circle_key "keypoints p" k ?P] assms(2) that(1)
    show ?thesis unfolding keys by blast
  qed
  have incl: "to_circle e a k \<in> set (circles_of (renderPose e a)) \<and>
          count_list (map key (circles_of (renderPose e a))) (circle_key k) = 1"
    if "k \<in> set (keypoints p)" "?P k" for k
  proof -
    have "to_circle e a k \<in> set (circles_of (renderPose e a))"
      unfolding r using that by simp
    moreover have "count_list (map key (circles_of (renderPose e a))) (circle_key k) = 1"
      unfolding keys using count_list_distinct_map[of circle_key "keypoints p" k ?P] assms(2) that by blast
    ultimately show ?thesis by simp
  qed
  show ?thesis using r' keys excl incl by blast
qed

theorem C4_threshold_filter_witness:
  "distinct (map circle_key
      [\<lparr>kp_x = 90, kp_y = 160, kp_score = Some (9/10), kp_name = Some ''nose''\<rparr>,
       \<lparr>kp_x = 10, kp_y = 20, kp_score = Some (1/4), kp_name = Some ''left_eye''\<rparr>,
       \<lparr>kp_x = 30, kp_y = 40, kp_score = None, kp_name = Some ''right_eye''\<rparr>]) \<and>
   map key (circles_of (renderPose \<lparr>os = IOS, window_width = 390\<rparr>
      \<lparr>tfReady = True, cameraType = Front, model = Some 1, fps = Num 20,
       poses = Some [\<lparr>keypoints = 
      [\<lparr>kp_x = 90, kp_y = 160, kp_score = Some (9/10), kp_name = Some ''nose''\<rparr>,
       \<lparr>kp_x = 10, kp_y = 20, kp_score = Some (1/4), kp_name = Some ''left_eye''\<rparr>,
       \<lparr>kp_x = 30, kp_y = 40, kp_score = None, kp_name = Some ''right_eye''\<rparr>], pose_score = Some (1/2)\<rparr>],
       orientation = Some PORTRAIT_UP\<rparr>)) = [''skeletonkp_nose'']"
  using C4_threshold_filter[of "\<lparr>tfReady = True, cameraType = Front, model = Some 1, fps = Num 20,
       poses = Some [\<lparr>keypoints = 
      [\<lparr>kp_x = 90, kp_y = 160, kp_score = Some (9/10), kp_name = Some ''nose''\<rparr>,
       \<lparr>kp_x = 10, kp_y = 20, kp_score = Some (1/4), kp_name = Some ''left_eye''\<rparr>,
       \<lparr>kp_x = 30, kp_y = 40, kp_score = None, kp_name = Some ''right_eye''\<rparr>], pose_score = Some (1/2)\<rparr>],
       orientation = Some PORTRAIT_UP\<rparr>" _ "[]" "\<lparr>os = IOS, window_width = 390\<rparr>"]
  by (simp add: circle_key_def)



lemma isPortrait_poses: "isPortrait (a\<lparr>poses := v\<rparr>) = isPortrait a"
  by (simp add: isPortrait_def)

lemma to_circle_poses: "to_circle e (a\<lparr>poses := v\<rparr>) = to_circle e a"
  by (rule ext)
    (simp add: to_circle_def flipped_x_def flipX_def getOutputTensorWidth_def
      getOutputTensorHeight_def isPortrait_def)

text \<open>
  Claim C5, as amended. The width and the height of the output tensor are swapped
  exactly when the orientation is not a portrait one (landscape, unknown, or not known
  yet) and the platform is not Android; on Android they are never swapped (180 by 240).
  The screen coordinates scale the keypoint from the output tensor to the preview, whose
  width and height change places when the orientation is not a portrait one. For
  portrait-up, the front camera and a keypoint at x = 90, the circle is at half the
  preview width, on every platform; the tensor is then 180 by 320 on iOS.
\<close>

theorem C5_transform_swaps_off_portrait:
  "((getOutputTensorWidth e a = OUTPUT_TENSOR_HEIGHT e \<and>
     getOutputTensorHeight e a = OUTPUT_TENSOR_WIDTH) =
    (orientation a \<noteq> Some PORTRAIT_UP \<and> orientation a \<noteq> Some PORTRAIT_DOWN \<and>
     os e \<noteq> Android)) \<and>
   ((getOutputTensorWidth e a = OUTPUT_TENSOR_WIDTH \<and>
     getOutputTensorHeight e a = OUTPUT_TENSOR_HEIGHT e) =
    (orientation a = Some PORTRAIT_UP \<or> orientation a = Some PORTRAIT_DOWN \<or>
     os e = Android)) \<and>
   getOutputTensorWidth (e\<lparr>os := Android\<rparr>) a = 180 \<and>
   getOutputTensorHeight (e\<lparr>os := Android\<rparr>) a = 240 \<and>
   getOutputTensorWidth (e\<lparr>os := IOS\<rparr>) (a\<lparr>orientation := Some PORTRAIT_UP\<rparr>) = 180 \<and>
   getOutputTensorHeight (e\<lparr>os := IOS\<rparr>) (a\<lparr>orientation := Some PORTRAIT_UP\<rparr>) = 320 \<and>
   getOutputTensorWidth (e\<lparr>os := IOS\<rparr>) (a\<lparr>orientation := Some LANDSCAPE_LEFT\<rparr>) = 320 \<and>
   getOutputTensorHeight (e\<lparr>os := IOS\<rparr>) (a\<lparr>orientation := Some LANDSCAPE_LEFT\<rparr>) = 180 \<and>
   cx (to_circle e a k) =
     flipped_x e a k / getOutputTensorWidth e a *
       (if orientation a = Some PORTRAIT_UP \<or> orientation a = Some PORTRAIT_DOWN
        then CAM_PREVIEW_WIDTH e else CAM_PREVIEW_HEIGHT e) \<and>
   cy (to_circle e a k) =
     kp_y k / getOutputTensorHeight e a *
       (if orientation a = Some PORTRAIT_UP \<or> orientation a = Some PORTRAIT_DOWN
        then CAM_PREVIEW_HEIGHT e else CAM_PREVIEW_WIDTH e) \<and>
   cx (to_circle e (a\<lparr>orientation := Some PORTRAIT_UP, cameraType := Front\<rparr>)
        (k\<lparr>kp_x := 90, kp_y := 160, kp_score := Some (9 / 10)\<rparr>)) = CAM_PREVIEW_WIDTH e / 2"
  by (auto simp add: getOutputTensorWidth_def getOutputTensorHeight_def isPortrait_def
      IS_ANDROID_def IS_IOS_def OUTPUT_TENSOR_WIDTH_def OUTPUT_TENSOR_HEIGHT_def to_circle_def
      Let_def flipped_x_def flipX_def CAM_PREVIEW_WIDTH_def)

text \<open>
  Claim C5 as it was stated fails: on iOS with the orientation \<open>UNKNOWN\<close> the width and
  the height are swapped (320 by 180) although the device is in no landscape orientation.
\<close>

theorem C5_counterexample_unknown_orientation:
  "\<not> ((getOutputTensorWidth \<lparr>os = IOS, window_width = 390\<rparr>
          \<lparr>tfReady = True, cameraType = Front, model = None, fps = Num 0, poses = None,
           orientation = Some UNKNOWN\<rparr> = OUTPUT_TENSOR_HEIGHT \<lparr>os = IOS, window_width = 390\<rparr> \<and>
        getOutputTensorHeight \<lparr>os = IOS, window_width = 390\<rparr>
          \<lparr>tfReady = True, cameraType = Front, model = None, fps = Num 0, poses = None,
           orientation = Some UNKNOWN\<rparr> = OUTPUT_TENSOR_WIDTH) =
       (os \<lparr>os = IOS, window_width = 390\<rparr> = IOS \<and>
        (orientation \<lparr>tfReady = True, cameraType = Front, model = None, fps = Num 0,
           poses = None, orientation = Some UNKNOWN\<rparr> = Some LANDSCAPE_LEFT \<or>
         orientation \<lparr>tfReady = True, cameraType = Front, model = None, fps = Num 0,
           poses = None, orientation = Some UNKNOWN\<rparr> = Some LANDSCAPE_RIGHT))) \<and>
   getOutputTensorWidth \<lparr>os = IOS, window_width = 390\<rparr>
      \<lparr>tfReady = True, cameraType = Front, model = None, fps = Num 0, poses = None,
       orientation = Some UNKNOWN\<rparr> = 320 \<and>
   getOutputTensorHeight \<lparr>os = IOS, window_width = 390\<rparr>
      \<lparr>tfReady = True, cameraType = Front, model = None, fps = Num 0, poses = None,
       orientation = Some UNKNOWN\<rparr> = 180"
  by (simp add: getOutputTensorWidth_def getOutputTensorHeight_def isPortrait_def IS_ANDROID_def
      IS_IOS_def OUTPUT_TENSOR_WIDTH_def OUTPUT_TENSOR_HEIGHT_def)

text \<open>
  Claim C6. The x-coordinate is mirrored, to the output width minus x, exactly when the
  platform is Android or the camera is the rear one; otherwise it is used as it is. The
  circle is drawn from the coordinate so obtained.
\<close>

theorem C6_mirror_on_android_or_rear_camera:
  "flipX e a = (os e = Android \<or> cameraType a = Back) \<and>
   flipped_x e a k =
     (if os e = Android \<or> cameraType a = Back then getOutputTensorWidth e a - kp_x k
      else kp_x k) \<and>
   cx (to_circle e a k) =
     (if os e = Android \<or> cameraType a = Back then getOutputTensorWidth e a - kp_x k
      else kp_x k)
       / getOutputTensorWidth e a
       * (if isPortrait a then CAM_PREVIEW_WIDTH e else CAM_PREVIEW_HEIGHT e)"
  by (simp add: flipX_def flipped_x_def to_circle_def IS_ANDROID_def Let_def)

subsubsection \<open>Mirroring twice\<close>

lemma pow2_powr: "pow2 k = 2 powr (of_int k)"
  by (simp add: pow2_def powr_real_of_int field_simps)

lemma round_even_nearest:
  assumes "\<bar>y - of_int n\<bar> < 1 / 2"
  shows "round_even y = n"
proof (cases "of_int n \<le> y")
  case True
  then have "\<lfloor>y\<rfloor> = n" using assms by (simp add: floor_eq_iff abs_less_iff)
  then show ?thesis using assms True by (simp add: round_even_def Let_def abs_less_iff)
next
  case False
  then have "\<lfloor>y\<rfloor> = n - 1" using assms by (simp add: floor_eq_iff abs_less_iff)
  then show ?thesis using assms False by (simp add: round_even_def Let_def abs_less_iff)
qed

lemma binary64_eval:
  assumes "0 < v" "pow2 ex \<le> v" "v < pow2 (ex + 1)"
    and "\<bar>v / pow2 (ex - 52) - of_int n\<bar> < 1 / 2"
  shows "binary64 v = of_int n * pow2 (ex - 52)"
proof -
  have "\<lfloor>log 2 v\<rfloor> = ex"
    using assms(1,2,3) by (simp add: floor_log_eq_powr_iff pow2_powr)
  then show ?thesis using assms(1,4) by (simp add: binary64_def round_even_nearest)
qed


lemma binary64_tenth: "binary64 (1 / 10) = 3602879701896397 / 36028797018963968"
  using binary64_eval[of "1 / 10" "- 4" 7205759403792794]
  by (simp add: pow2_def)

lemma binary64_first: 
  "binary64 (180 - 3602879701896397 / 36028797018963968) = 6329668538780877 / 35184372088832"
  using binary64_eval[of "180 - 3602879701896397 / 36028797018963968" 7 6329668538780877]
  by (simp add: pow2_def)

lemma binary64_second: 
  "binary64 (180 - 6329668538780877 / 35184372088832) = 3518437208883 / 35184372088832"
  using binary64_eval[of "180 - 6329668538780877 / 35184372088832" "- 4" 7205759403792384]
  by (simp add: pow2_def)

lemma binary64_90: "binary64 90 = 90"
  using binary64_eval[of 90 6 6333186975989760]
  by (simp add: pow2_def)

lemma flipped_x_binary64_eval:
  "flipX e a \<Longrightarrow> getOutputTensorWidth e a = w \<Longrightarrow> kp_x k = x \<Longrightarrow> binary64 (w - x) = v \<Longrightarrow>
     flipped_x_binary64 e a k = v"
  by (simp add: flipped_x_binary64_def)

text \<open>
  Claim C9, as amended. In exact arithmetic, mirroring a coordinate twice gives the
  coordinate back: the output width minus (the output width minus x) is x. With the
  subtraction rounded to binary64, as the program computes it, this holds for a
  binary64 coordinate whenever the first subtraction is exact; the rounded mirror is then
  the exact one.
\<close>

theorem C9_mirror_twice_when_subtraction_exact:
  "flipped_x e a (k\<lparr>kp_x := flipped_x e a k\<rparr>) = kp_x k \<and>
   (binary64 (kp_x k) = kp_x k \<and>
    binary64 (getOutputTensorWidth e a - kp_x k) = getOutputTensorWidth e a - kp_x k \<longrightarrow>
      flipped_x_binary64 e a k = flipped_x e a k \<and>
      flipped_x_binary64 e a (k\<lparr>kp_x := flipped_x_binary64 e a k\<rparr>) = kp_x k)"
  by (simp add: flipped_x_def flipped_x_binary64_def)

theorem C9_mirror_twice_when_subtraction_exact_witness:
  "binary64 (kp_x \<lparr>kp_x = 90, kp_y = 160, kp_score = Some (9 / 10), kp_name = Some ''nose''\<rparr>) =
     kp_x \<lparr>kp_x = 90, kp_y = 160, kp_score = Some (9 / 10), kp_name = Some ''nose''\<rparr> \<and>
   binary64 (getOutputTensorWidth \<lparr>os = Android, window_width = 390\<rparr>
        \<lparr>tfReady = True, cameraType = Front, model = None, fps = Num 0, poses = None,
         orientation = Some PORTRAIT_UP\<rparr>
      - kp_x \<lparr>kp_x = 90, kp_y = 160, kp_score = Some (9 / 10), kp_name = Some ''nose''\<rparr>) =
     getOutputTensorWidth \<lparr>os = Android, window_width = 390\<rparr>
        \<lparr>tfReady = True, cameraType = Front, model = None, fps = Num 0, poses = None,
         orientation = Some PORTRAIT_UP\<rparr>
      - kp_x \<lparr>kp_x = 90, kp_y = 160, kp_score = Some (9 / 10), kp_name = Some ''nose''\<rparr> \<and>
   flipped_x_binary64 \<lparr>os = Android, window_width = 390\<rparr>
      \<lparr>tfReady = True, cameraType = Front, model = None, fps = Num 0, poses = None,
       orientation = Some PORTRAIT_UP\<rparr>
      (\<lparr>kp_x = 90, kp_y = 160, kp_score = Some (9 / 10), kp_name = Some ''nose''\<rparr>
        \<lparr>kp_x := flipped_x_binary64 \<lparr>os = Android, window_width = 390\<rparr>
           \<lparr>tfReady = True, cameraType = Front, model = None, fps = Num 0, poses = None,
            orientation = Some PORTRAIT_UP\<rparr>
           \<lparr>kp_x = 90, kp_y = 160, kp_score = Some (9 / 10), kp_name = Some ''nose''\<rparr>\<rparr>) = 90"
  using C9_mirror_twice_when_subtraction_exact[of "\<lparr>os = Android, window_width = 390\<rparr>"
      "\<lparr>tfReady = True, cameraType = Front, model = None, fps = Num 0, poses = None,
         orientation = Some PORTRAIT_UP\<rparr>"
      "\<lparr>kp_x = 90, kp_y = 160, kp_score = Some (9 / 10), kp_name = Some ''nose''\<rparr>"]
    binary64_90
  by (simp add: flipped_x_binary64_def flipped_x_def flipX_def IS_ANDROID_def
      getOutputTensorWidth_def isPortrait_def OUTPUT_TENSOR_WIDTH_def)

text \<open>
  Claim C9 as it was stated fails for the numbers of the program. On Android in portrait
  the output width is 180; for the coordinate 0.1 (the binary64 number nearest to it)
  the first subtraction rounds, to \<open>179.90000000000000568\<close>, and the second gives
  \<open>0.09999999999999432\<close>, which is not the coordinate.
\<close>

theorem C9_counterexample_rounded_subtraction:
  "binary64 (1 / 10) = 3602879701896397 / 36028797018963968 \<and>
   getOutputTensorWidth \<lparr>os = Android, window_width = 390\<rparr>
      \<lparr>tfReady = True, cameraType = Front, model = None, fps = Num 0, poses = None,
       orientation = Some PORTRAIT_UP\<rparr> = 180 \<and>
   flipped_x_binary64 \<lparr>os = Android, window_width = 390\<rparr>
      \<lparr>tfReady = True, cameraType = Front, model = None, fps = Num 0, poses = None,
       orientation = Some PORTRAIT_UP\<rparr>
      \<lparr>kp_x = 3602879701896397 / 36028797018963968, kp_y = 160, kp_score = Some (9 / 10),
       kp_name = Some ''nose''\<rparr> = 6329668538780877 / 35184372088832 \<and>
   flipped_x_binary64 \<lparr>os = Android, window_width = 390\<rparr>
      \<lparr>tfReady = True, cameraType = Front, model = None, fps = Num 0, poses = None,
       orientation = Some PORTRAIT_UP\<rparr>
      \<lparr>kp_x = 6329668538780877 / 35184372088832, kp_y = 160, kp_score = Some (9 / 10),
       kp_name = Some ''nose''\<rparr> = 3518437208883 / 35184372088832 \<and>
   flipped_x_binary64 \<lparr>os = Android, window_width = 390\<rparr>
      \<lparr>tfReady = True, cameraType = Front, model = None, fps = Num 0, poses = None,
       orientation = Some PORTRAIT_UP\<rparr>
      (\<lparr>kp_x = 3602879701896397 / 36028797018963968, kp_y = 160, kp_score = Some (9 / 10),
        kp_name = Some ''nose''\<rparr>
        \<lparr>kp_x := flipped_x_binary64 \<lparr>os = Android, window_width = 390\<rparr>
           \<lparr>tfReady = True, cameraType = Front, model = None, fps = Num 0, poses = None,
            orientation = Some PORTRAIT_UP\<rparr>
           \<lparr>kp_x = 3602879701896397 / 36028797018963968, kp_y = 160, kp_score = Some (9 / 10),
            kp_name = Some ''nose''\<rparr>\<rparr>)
     \<noteq> kp_x \<lparr>kp_x = 3602879701896397 / 36028797018963968, kp_y = 160, kp_score = Some (9 / 10),
        kp_name = Some ''nose''\<rparr>"
proof -
  let ?e = "\<lparr>os = Android, window_width = 390\<rparr>"
  let ?a = "\<lparr>tfReady = True, cameraType = Front, model = None, fps = Num 0, poses = None,
       orientation = Some PORTRAIT_UP\<rparr>"
  let ?k = "\<lparr>kp_x = 3602879701896397 / 36028797018963968, kp_y = 160, kp_score = Some (9 / 10),
       kp_name = Some ''nose''\<rparr>"
  have fx: "flipX ?e ?a" by (simp add: flipX_def IS_ANDROID_def)
  have w: "getOutputTensorWidth ?e ?a = 180"
    by (simp add: getOutputTensorWidth_def isPortrait_def OUTPUT_TENSOR_WIDTH_def)
  have f1: "flipped_x_binary64 ?e ?a ?k = 6329668538780877 / 35184372088832"
    by (rule flipped_x_binary64_eval[OF fx w _ binary64_first]) simp
  have f2: "flipped_x_binary64 ?e ?a
      \<lparr>kp_x = 6329668538780877 / 35184372088832, kp_y = 160, kp_score = Some (9 / 10),
       kp_name = Some ''nose''\<rparr> = 3518437208883 / 35184372088832"
    by (rule flipped_x_binary64_eval[OF fx w _ binary64_second]) simp
  have f3: "flipped_x_binary64 ?e ?a (?k\<lparr>kp_x := flipped_x_binary64 ?e ?a ?k\<rparr>) =
      3518437208883 / 35184372088832"
    by (rule flipped_x_binary64_eval[OF fx w _ binary64_second]) (simp add: f1)
  have f4: "flipped_x_binary64 ?e ?a (?k\<lparr>kp_x := flipped_x_binary64 ?e ?a ?k\<rparr>) \<noteq> kp_x ?k"
    unfolding f3 by simp
  show ?thesis
    by (intro conjI) (fact binary64_tenth w f1 f2 f4)+
qed


text \<open>
  Claim C10. Without poses (\<open>null\<close>, \<open>undefined\<close> or an empty list) the overlay is an
  empty view, with no circle. With poses, the overlay is made of the keypoints of the
  first pose alone: it is the same whatever poses follow the first.
\<close>

theorem C10_first_pose_only:
  "renderPose e (a\<lparr>poses := None\<rparr>) = View \<and>
   renderPose e (a\<lparr>poses := Some []\<rparr>) = View \<and>
   circles_of (renderPose e (a\<lparr>poses := None\<rparr>)) = [] \<and>
   circles_of (renderPose e (a\<lparr>poses := Some []\<rparr>)) = [] \<and>
   renderPose e (a\<lparr>poses := Some (p # ps)\<rparr>) =
     Svg (map (to_circle e a)
            (filter (\<lambda>k. (case kp_score k of None \<Rightarrow> 0 | Some s \<Rightarrow> s) > 3 / 10)
               (keypoints p))) \<and>
   renderPose e (a\<lparr>poses := Some (p # ps)\<rparr>) = renderPose e (a\<lparr>poses := Some [p]\<rparr>)"
  by (simp add: renderPose_def to_circle_poses score_or_0_def MIN_KEYPOINT_SCORE_def)

subsection \<open>Traces\<close>

lemma trace_emit [simp]: "trace (emit as s) = trace s @ as"
  by (simp add: emit_def)

lemma estimates_append [simp]: "estimates (xs @ ys) = estimates xs + estimates ys"
  by (induction xs rule: estimates.induct) auto

lemma acquired_append [simp]: "acquired (xs @ ys) = acquired xs @ acquired ys"
  by (induction xs rule: acquired.induct) auto

lemma released_append [simp]: "released (xs @ ys) = released xs @ released ys"
  by (induction xs rule: released.induct) auto

lemma created_append [simp]: "created (xs @ ys) = created xs \<union> created ys"
  by (induction xs rule: created.induct) auto

lemma created_iff: "d \<in> created xs \<longleftrightarrow> SetModel d \<in> set xs"
  by (induction xs rule: created.induct) auto

lemma est_ok_append: "est_ok ds (xs @ ys) = (est_ok ds xs \<and> est_ok (ds \<union> created xs) ys)"
  by (induction ds xs rule: est_ok.induct) auto

lemma pipeline_append:
  "pipeline ph (xs @ ys) = (case pipeline ph xs of None \<Rightarrow> None | Some ph' \<Rightarrow> pipeline ph' ys)"
  by (induction xs arbitrary: ph) (auto split: option.splits)

lemma holding_Raised: "holding (Raised v) = holding (Begun v)"
  by (cases v) simp_all

lemma advance_holding:
  "advance ph a = Some ph' \<Longrightarrow> holding ph @ acquired [a] = released [a] @ holding ph'"
proof (cases a)
  case (ImagesNext v)
  assume "advance ph a = Some ph'"
  then show ?thesis using ImagesNext by (cases v) (auto split: if_splits)
qed (auto simp: holding_Raised split: if_splits phase.splits)

lemma pipeline_holding:
  "pipeline ph xs = Some ph' \<Longrightarrow> holding ph @ acquired xs = released xs @ holding ph'"
proof (induction xs arbitrary: ph)
  case Nil
  then show ?case by simp
next
  case (Cons a xs)
  from Cons.prems obtain ph1 where a: "advance ph a = Some ph1" and r: "pipeline ph1 xs = Some ph'"
    by (auto split: option.splits)
  have "holding ph @ acquired (a # xs) = (holding ph @ acquired [a]) @ acquired xs"
    using acquired_append[of "[a]" xs] by simp
  also have "\<dots> = released [a] @ (holding ph1 @ acquired xs)"
    using advance_holding[OF a] by simp
  also have "\<dots> = released [a] @ released xs @ holding ph'"
    using Cons.IH[OF r] by simp
  also have "\<dots> = released (a # xs) @ holding ph'"
    using released_append[of "[a]" xs] by simp
  finally show ?case .
qed

lemma holding_cases: "holding ph = [] \<or> (\<exists>t. holding ph = [t])"
  by (cases ph rule: holding.cases) simp_all

subsection \<open>Runs\<close>

lemma run_Nil: "run [] = initial"
  by (simp add: run_def)

lemma run_snoc: "run (evs @ [ev]) = step ev (run evs)"
  by (simp add: run_def)

lemmas run_eval = run_def initial_def handleCameraStream_def loop_def loop_resume_def emit_def
  cleanup_def requestAnimationFrame_def cancelAnimationFrame_def AUTO_RENDER_def
  floor_1000_div_def

lemma trace_loop_resume:
  "trace (loop_resume t ts (Some ps) n3 s) =
     trace s @ [SetFps (floor_1000_div (n3 - ts)), SetPoses ps, Dispose t] @
       (if rafId s = Some 0 then []
        else [UpdatePreview, EndFrameEXP, RequestAnimationFrame (Suc (lastHandle s))])"
  by (simp add: loop_resume_def emit_def requestAnimationFrame_def AUTO_RENDER_def Let_def)

lemma trace_loop_resume_rejected:
  "trace (loop_resume t ts None n3 s) = trace s @ [EstimateRejected]"
  by (simp add: loop_resume_def)

lemma trace_loop_no_model:
  "trace (loop v n1 n2 (s\<lparr>loopModel := None\<rparr>)) = trace s @ [ImagesNext v, ThrowNoModel]"
  by (simp add: loop_def emit_def)

subsubsection \<open>The model is created before it is used\<close>

lemma inv_model_initial: "inv_model initial"
  by (simp add: inv_model_def initial_def)

lemma inv_model_loop: "inv_model s \<Longrightarrow> inv_model (loop v n1 n2 s)"
  by (cases v; cases "loopModel s")
     (simp_all add: inv_model_def loop_def emit_def est_ok_append split: option.splits)

lemma inv_model_handleCameraStream:
  "inv_model s \<Longrightarrow> inv_model (handleCameraStream v n1 n2 (s\<lparr>cameraReady := True\<rparr>))"
  unfolding handleCameraStream_def
  by (rule inv_model_loop) (simp add: inv_model_def split: option.splits)

lemma inv_model_loop_resume: "inv_model s \<Longrightarrow> inv_model (loop_resume t ts outcome n3 s)"
  by (cases outcome)
     (simp_all add: inv_model_def loop_resume_def emit_def est_ok_append
        requestAnimationFrame_def AUTO_RENDER_def Let_def split: option.splits)

lemma inv_model_cleanup: "inv_model s \<Longrightarrow> inv_model (cleanup (s\<lparr>mounted := False\<rparr>))"
  by (cases "rafId s")
     (simp_all add: inv_model_def cleanup_def cancelAnimationFrame_def emit_def est_ok_append
        split: option.splits)

lemma inv_model_step: "inv_model s \<Longrightarrow> inv_model (step ev s)"
proof (cases ev)
  case (CameraReady v n1 n2)
  assume "inv_model s"
  then show ?thesis using CameraReady by (simp add: inv_model_handleCameraStream)
next
  case (AnimationFrame h v n1 n2)
  assume i: "inv_model s"
  then have "inv_model (s\<lparr>frames := removeAll h (frames s)\<rparr>)"
    by (simp add: inv_model_def split: option.splits)
  then show ?thesis using AnimationFrame i by (simp add: inv_model_loop)
next
  case (EstimateSettled k outcome n3)
  assume i: "inv_model s"
  then have "inv_model (s\<lparr>suspended := take k (suspended s) @ drop (Suc k) (suspended s)\<rparr>)"
    by (simp add: inv_model_def split: option.splits)
  then show ?thesis using EstimateSettled i by (simp add: inv_model_loop_resume split: prod.splits)
next
  case Unmount
  assume "inv_model s"
  then show ?thesis using Unmount by (simp add: inv_model_cleanup)
next
  case (DetectorCreated d)
  assume "inv_model s"
  then show ?thesis using DetectorCreated
    by (simp add: inv_model_def emit_def est_ok_append split: option.splits)
qed (simp_all add: inv_model_def emit_def est_ok_append split: option.splits)

lemma inv_model_run: "inv_model (run evs)"
  by (induction evs rule: rev_induct) (simp_all add: run_Nil run_snoc inv_model_step inv_model_initial)

subsubsection \<open>One pipeline at a time\<close>

lemma inv_pipeline_initial: "inv_pipeline initial"
  by (simp add: inv_pipeline_def initial_def)

lemma inv_pipeline_loop:
  assumes "pipeline Idle (trace s) = Some ph" "ph = Idle \<or> ph = Scheduled"
    "suspended s = []" "frames s = []" "cameraReady s"
  shows "inv_pipeline (loop v n1 n2 s)"
  using assms
  by (cases v; cases "loopModel s")
     (auto simp add: inv_pipeline_def loop_def emit_def pipeline_append)

lemma inv_pipeline_loop_resume:
  assumes "pipeline Idle (trace s) = Some (Estimating t)" "suspended s = []" "frames s = []"
    "cameraReady s"
  shows "inv_pipeline (loop_resume t ts outcome n3 s)"
  using assms
  by (cases outcome)
     (simp_all add: inv_pipeline_def loop_resume_def emit_def pipeline_append
        requestAnimationFrame_def AUTO_RENDER_def Let_def)

lemma removeAll_frames:
  assumes "inv_pipeline s" "rafId s = Some h"
  shows "removeAll h (frames s) = []"
proof (cases "frames s = []")
  case True
  then show ?thesis by simp
next
  case False
  then have "frames s = [h]" using assms by (auto simp: inv_pipeline_def)
  then show ?thesis by simp
qed

lemma inv_pipeline_cleanup:
  assumes "inv_pipeline s"
  shows "inv_pipeline (cleanup (s\<lparr>mounted := False\<rparr>))"
proof (cases "rafId s")
  case None
  then show ?thesis using assms by (simp add: inv_pipeline_def cleanup_def)
next
  case (Some h)
  show ?thesis
  proof (cases "h = 0")
    case True
    then show ?thesis using assms Some by (simp add: inv_pipeline_def cleanup_def)
  next
    case False
    from assms obtain ph where ph: "pipeline Idle (trace s) = Some ph"
      "suspended s \<noteq> [] \<longrightarrow> (\<exists>t ts. suspended s = [(t, ts)] \<and> ph = Estimating t) \<and> frames s = []"
      "\<not> cameraReady s \<longrightarrow> ph = Idle \<and> suspended s = [] \<and> frames s = [] \<and> rafId s = None"
      unfolding inv_pipeline_def by blast
    have cr: "cameraReady s" using ph(3) Some by auto
    show ?thesis
      unfolding inv_pipeline_def
      apply (rule exI[of _ ph])
      using ph(1,2) removeAll_frames[OF assms Some] cr Some False
      by (simp add: cleanup_def cancelAnimationFrame_def emit_def pipeline_append)
  qed
qed

lemma inv_pipeline_emit:
  assumes "inv_pipeline s" "\<And>ph. advance ph a = Some ph"
    "suspended s' = suspended s" "frames s' = frames s" "lastHandle s' = lastHandle s"
    "rafId s' = rafId s" "cameraReady s' = cameraReady s" "trace s' = trace s"
  shows "inv_pipeline (emit [a] s')"
  using assms unfolding inv_pipeline_def
  by (auto simp: emit_def pipeline_append)

lemma inv_pipeline_step: "inv_pipeline s \<Longrightarrow> inv_pipeline (step ev s)"
proof (cases ev)
  case (CameraReady v n1 n2)
  assume i: "inv_pipeline s"
  show ?thesis
  proof (cases "mounted s \<and> tfReady s \<and> \<not> cameraReady s")
    case True
    then have "pipeline Idle (trace s) = Some Idle \<and> suspended s = [] \<and> frames s = []"
      using i by (auto simp: inv_pipeline_def)
    then show ?thesis using True CameraReady
      by (simp add: handleCameraStream_def inv_pipeline_loop)
  next
    case False
    then show ?thesis using i CameraReady by auto
  qed
next
  case (AnimationFrame h v n1 n2)
  assume i: "inv_pipeline s"
  show ?thesis
  proof (cases "h \<in> set (frames s)")
    case True
    then have "frames s \<noteq> []" by auto
    then have "pipeline Idle (trace s) = Some Scheduled \<and> suspended s = [] \<and>
        frames s = [lastHandle s] \<and> cameraReady s"
      using i unfolding inv_pipeline_def by blast
    moreover from this True have "h = lastHandle s" by simp
    ultimately show ?thesis using True AnimationFrame
      by (simp add: inv_pipeline_loop)
  next
    case False
    then show ?thesis using i AnimationFrame by simp
  qed
next
  case (EstimateSettled k outcome n3)
  assume i: "inv_pipeline s"
  show ?thesis
  proof (cases "k < length (suspended s)")
    case True
    then have "suspended s \<noteq> []" by auto
    then obtain t ts where f: "pipeline Idle (trace s) = Some (Estimating t)"
        "suspended s = [(t, ts)]" "frames s = []" "cameraReady s"
      using i unfolding inv_pipeline_def by blast
    then have "k = 0" using True by simp
    then show ?thesis using True EstimateSettled f
      by (simp add: inv_pipeline_loop_resume)
  next
    case False
    then show ?thesis using i EstimateSettled by simp
  qed
next
  case Unmount
  assume "inv_pipeline s"
  then show ?thesis using Unmount by (simp add: inv_pipeline_cleanup)
next
  case (OrientationResolved ori)
  assume "inv_pipeline s"
  then show ?thesis using OrientationResolved by (simp add: inv_pipeline_emit)
next
  case (OrientationChanged ori)
  assume "inv_pipeline s"
  then show ?thesis using OrientationChanged by (simp add: inv_pipeline_emit)
next
  case PermissionResolved
  assume "inv_pipeline s"
  then show ?thesis using PermissionResolved by (simp add: inv_pipeline_def)
next
  case TfReady
  assume "inv_pipeline s"
  then show ?thesis using TfReady by (simp add: inv_pipeline_emit)
next
  case (DetectorCreated d)
  assume "inv_pipeline s"
  then show ?thesis using DetectorCreated by (simp add: inv_pipeline_emit)
next
  case DetectorFailed
  assume "inv_pipeline s"
  then show ?thesis using DetectorFailed by (simp add: inv_pipeline_emit)
qed

lemma inv_pipeline_run: "inv_pipeline (run evs)"
  by (induction evs rule: rev_induct)
    (simp_all add: run_Nil run_snoc inv_pipeline_step inv_pipeline_initial)

lemma pipeline_prefix:
  assumes "prefix p (trace (run evs))"
  shows "\<exists>ph. pipeline Idle p = Some ph"
proof -
  obtain ph where ph: "pipeline Idle (trace (run evs)) = Some ph"
    using inv_pipeline_run[of evs] unfolding inv_pipeline_def by blast
  from assms obtain q where "trace (run evs) = p @ q" by (auto simp: prefix_def)
  with ph have "(case pipeline Idle p of None \<Rightarrow> None | Some ph' \<Rightarrow> pipeline ph' q) = Some ph"
    by (simp add: pipeline_append)
  then show ?thesis by (cases "pipeline Idle p") simp_all
qed

subsubsection \<open>After the unmount\<close>

lemma stopped_step:
  assumes "stopped s"
  shows "stopped (step ev s) \<and> estimates (trace (step ev s)) = estimates (trace s)"
proof (cases ev)
  case (EstimateSettled k outcome n3)
  show ?thesis
  proof (cases "k < length (suspended s)")
    case True
    then have "suspended s \<noteq> []" by auto
    then have r: "rafId s = Some 0" using assms by (simp add: stopped_def)
    show ?thesis using True r assms EstimateSettled
      by (cases outcome)
        (simp_all add: stopped_def loop_resume_def emit_def Let_def split: prod.splits)
  next
    case False
    then show ?thesis using assms EstimateSettled by simp
  qed
qed (use assms in \<open>simp_all add: stopped_def emit_def\<close>)

lemma stopped_foldl:
  "stopped s \<Longrightarrow> estimates (trace (foldl (\<lambda>s ev. step ev s) s evs)) = estimates (trace s)"
  by (induction evs arbitrary: s) (simp_all add: stopped_step)

lemma stopped_unmount:
  assumes "inv_pipeline s" "mounted s" "rafId s \<noteq> None \<or> suspended s = []"
  shows "stopped (step Unmount s) \<and> estimates (trace (step Unmount s)) = estimates (trace s)"
proof (cases "rafId s")
  case None
  then have "frames s = []" "suspended s = []" using assms by (auto simp: inv_pipeline_def)
  then show ?thesis using None assms(2) by (simp add: stopped_def cleanup_def)
next
  case (Some h)
  show ?thesis
  proof (cases "h = 0")
    case True
    then have "frames s = []" using Some assms(1) by (auto simp: inv_pipeline_def)
    then show ?thesis using Some True assms(2) by (simp add: stopped_def cleanup_def)
  next
    case False
    then show ?thesis using Some assms(2) removeAll_frames[OF assms(1) Some]
      by (simp add: stopped_def cleanup_def cancelAnimationFrame_def emit_def)
  qed
qed

text \<open>
  When the component is unmounted after the first iteration has requested its animation
  frame, or while no iteration is waiting, \<open>estimatePoses\<close> is never called again,
  whatever happens afterwards.
\<close>

lemma unmount_stops_the_loop:
  assumes "mounted (run pre)" and "rafId (run pre) \<noteq> None \<or> suspended (run pre) = []"
  shows "estimates (trace (run (pre @ Unmount # post))) = estimates (trace (run pre))"
proof -
  have "run (pre @ Unmount # post) = foldl (\<lambda>s ev. step ev s) (step Unmount (run pre)) post"
    by (simp add: run_def)
  then show ?thesis
    using stopped_unmount[OF inv_pipeline_run assms] by (simp add: stopped_foldl)
qed

subsection \<open>The frame loop\<close>

text \<open>
  Claim C1, as amended. While an iteration waits for \<open>estimatePoses\<close>, its tensor is the
  one tensor acquired and not released. When \<open>estimatePoses\<close> returns, the iteration
  records the rate and the poses and then releases that tensor, once, before it looks at
  the cancellation and on both of its exits (the return when cancelled, the request of the
  next frame); from then on every tensor acquired has been released exactly once. An
  iteration that raises releases nothing: not when \<open>estimatePoses\<close> fails, and not when
  there is no model.
\<close>

theorem C1_released_once_when_estimation_returns:
  assumes "suspended (run evs) \<noteq> []"
  shows "pipeline Idle (trace (run evs)) = Some (Estimating (fst (hd (suspended (run evs))))) \<and>
     acquired (trace (run evs)) = released (trace (run evs)) @ [fst (hd (suspended (run evs)))] \<and>
     trace (run (evs @ [EstimateSettled 0 (Some ps) now3])) =
       trace (run evs) @
         [SetFps (floor_1000_div (now3 - snd (hd (suspended (run evs))))), SetPoses ps,
          Dispose (fst (hd (suspended (run evs))))] @
         (if rafId (run evs) = Some 0 then []
          else [UpdatePreview, EndFrameEXP, RequestAnimationFrame (Suc (lastHandle (run evs)))]) \<and>
     released (trace (run (evs @ [EstimateSettled 0 (Some ps) now3]))) =
       released (trace (run evs)) @ [fst (hd (suspended (run evs)))] \<and>
     acquired (trace (run (evs @ [EstimateSettled 0 (Some ps) now3]))) =
       released (trace (run (evs @ [EstimateSettled 0 (Some ps) now3]))) \<and>
     trace (run (evs @ [EstimateSettled 0 None now3])) = trace (run evs) @ [EstimateRejected] \<and>
     released (trace (run (evs @ [EstimateSettled 0 None now3]))) = released (trace (run evs)) \<and>
     trace (loop v now1 now2 (s\<lparr>loopModel := None\<rparr>)) = trace s @ [ImagesNext v, ThrowNoModel]"
proof -
  let ?s = "run evs"
  from inv_pipeline_run[of evs] assms obtain t ts where
    f: "pipeline Idle (trace ?s) = Some (Estimating t)" and su: "suspended ?s = [(t, ts)]"
    unfolding inv_pipeline_def by blast
  have acq: "acquired (trace ?s) = released (trace ?s) @ [t]"
    using pipeline_holding[OF f] by simp
  have tr: "trace (run (evs @ [EstimateSettled 0 (Some ps) now3])) =
       trace ?s @ [SetFps (floor_1000_div (now3 - ts)), SetPoses ps, Dispose t] @
         (if rafId ?s = Some 0 then []
          else [UpdatePreview, EndFrameEXP, RequestAnimationFrame (Suc (lastHandle ?s))])"
    by (simp add: run_snoc su trace_loop_resume)
  have rel: "released (trace (run (evs @ [EstimateSettled 0 (Some ps) now3]))) =
       released (trace ?s) @ [t]"
    unfolding tr by simp
  have acq': "acquired (trace (run (evs @ [EstimateSettled 0 (Some ps) now3]))) =
       acquired (trace ?s)"
    unfolding tr by simp
  have rej: "trace (run (evs @ [EstimateSettled 0 None now3])) = trace ?s @ [EstimateRejected]"
    by (simp add: run_snoc su trace_loop_resume_rejected)
  have rej': "released (trace (run (evs @ [EstimateSettled 0 None now3]))) = released (trace ?s)"
    unfolding rej by simp
  show ?thesis
    using f acq tr rel acq' rej rej' trace_loop_no_model[of v now1 now2 s] by (simp add: su)
qed

theorem C1_released_once_when_estimation_returns_witness:
  "suspended (run [OrientationResolved PORTRAIT_UP, PermissionResolved, TfReady, DetectorCreated 5,
      CameraReady (Some 7) 100 101]) \<noteq> [] \<and>
   trace (run ([OrientationResolved PORTRAIT_UP, PermissionResolved, TfReady, DetectorCreated 5,
      CameraReady (Some 7) 100 101] @ [EstimateSettled 0 (Some []) 150])) =
     [SetOrientation PORTRAIT_UP, SetTfReady, SetModel 5, ImagesNext (Some 7),
      EstimatePoses 5 7 101, SetFps (Num 20), SetPoses [], Dispose 7, UpdatePreview, EndFrameEXP,
      RequestAnimationFrame 1] \<and>
   released (trace (run ([OrientationResolved PORTRAIT_UP, PermissionResolved, TfReady,
      DetectorCreated 5, CameraReady (Some 7) 100 101] @ [EstimateSettled 0 (Some []) 150]))) = [7]"
  using C1_released_once_when_estimation_returns
    [of "[OrientationResolved PORTRAIT_UP, PermissionResolved, TfReady, DetectorCreated 5,
      CameraReady (Some 7) 100 101]" "[]" 150]
  by (simp add: run_eval)

text \<open>
  Claim C1 as it was stated fails on the paths that raise. With \<open>tfReady\<close> set and no
  model yet, the first iteration takes tensor 7 and throws; with a model, it takes tensor 7
  and \<open>estimatePoses\<close> fails. In both runs the tensor acquired is never released.
\<close>

theorem C1_counterexample_no_release_on_error:
  "trace (run [OrientationResolved PORTRAIT_UP, PermissionResolved, TfReady,
      CameraReady (Some 7) 100 101]) =
     [SetOrientation PORTRAIT_UP, SetTfReady, ImagesNext (Some 7), ThrowNoModel] \<and>
   acquired (trace (run [OrientationResolved PORTRAIT_UP, PermissionResolved, TfReady,
      CameraReady (Some 7) 100 101])) = [7] \<and>
   released (trace (run [OrientationResolved PORTRAIT_UP, PermissionResolved, TfReady,
      CameraReady (Some 7) 100 101])) = [] \<and>
   suspended (run [OrientationResolved PORTRAIT_UP, PermissionResolved, TfReady,
      CameraReady (Some 7) 100 101]) = [] \<and>
   frames (run [OrientationResolved PORTRAIT_UP, PermissionResolved, TfReady,
      CameraReady (Some 7) 100 101]) = [] \<and>
   trace (run [OrientationResolved PORTRAIT_UP, PermissionResolved, TfReady, DetectorCreated 5,
      CameraReady (Some 7) 100 101, EstimateSettled 0 None 150]) =
     [SetOrientation PORTRAIT_UP, SetTfReady, SetModel 5, ImagesNext (Some 7),
      EstimatePoses 5 7 101, EstimateRejected] \<and>
   acquired (trace (run [OrientationResolved PORTRAIT_UP, PermissionResolved, TfReady,
      DetectorCreated 5, CameraReady (Some 7) 100 101, EstimateSettled 0 None 150])) = [7] \<and>
   released (trace (run [OrientationResolved PORTRAIT_UP, PermissionResolved, TfReady,
      DetectorCreated 5, CameraReady (Some 7) 100 101, EstimateSettled 0 None 150])) = [] \<and>
   suspended (run [OrientationResolved PORTRAIT_UP, PermissionResolved, TfReady,
      DetectorCreated 5, CameraReady (Some 7) 100 101, EstimateSettled 0 None 150]) = [] \<and>
   frames (run [OrientationResolved PORTRAIT_UP, PermissionResolved, TfReady,
      DetectorCreated 5, CameraReady (Some 7) 100 101, EstimateSettled 0 None 150]) = []"
  by (simp add: run_eval)

text \<open>
  Claim C2, where the code misses it. The component is unmounted while the first
  iteration waits for \<open>estimatePoses\<close>: \<open>rafId.current\<close> is still \<open>null\<close>, so the
  clean-up neither cancels anything nor sets it to \<open>0\<close>. When \<open>estimatePoses\<close> returns,
  the iteration requests the next animation frame, and the iteration run by that frame
  calls \<open>estimatePoses\<close> again, after the unmount.
\<close>

theorem C2_unmount_during_first_iteration:
  "rafId (run [OrientationResolved PORTRAIT_UP, PermissionResolved, TfReady, DetectorCreated 5,
      CameraReady (Some 1) 100 101, Unmount]) = None \<and>
   mounted (run [OrientationResolved PORTRAIT_UP, PermissionResolved, TfReady, DetectorCreated 5,
      CameraReady (Some 1) 100 101, Unmount]) = False \<and>
   trace (run [OrientationResolved PORTRAIT_UP, PermissionResolved, TfReady, DetectorCreated 5,
      CameraReady (Some 1) 100 101, Unmount]) =
     [SetOrientation PORTRAIT_UP, SetTfReady, SetModel 5, ImagesNext (Some 1),
      EstimatePoses 5 1 101] \<and>
   trace (run [OrientationResolved PORTRAIT_UP, PermissionResolved, TfReady, DetectorCreated 5,
      CameraReady (Some 1) 100 101, Unmount, EstimateSettled 0 (Some []) 150,
      AnimationFrame 1 (Some 2) 160 161]) =
     [SetOrientation PORTRAIT_UP, SetTfReady, SetModel 5, ImagesNext (Some 1),
      EstimatePoses 5 1 101, SetFps (Num 20), SetPoses [], Dispose 1, UpdatePreview, EndFrameEXP,
      RequestAnimationFrame 1, ImagesNext (Some 2), EstimatePoses 5 2 161] \<and>
   estimates (trace (run [OrientationResolved PORTRAIT_UP, PermissionResolved, TfReady,
      DetectorCreated 5, CameraReady (Some 1) 100 101, Unmount, EstimateSettled 0 (Some []) 150,
      AnimationFrame 1 (Some 2) 160 161])) =
     Suc (estimates (trace (run [OrientationResolved PORTRAIT_UP, PermissionResolved, TfReady,
      DetectorCreated 5, CameraReady (Some 1) 100 101, Unmount])))"
  by (simp add: run_eval)

text \<open>
  Claim C3, as amended. In every run, a call of \<open>estimatePoses\<close> on a detector comes
  after the creation of that detector has succeeded (\<open>setModel\<close>): the estimator is never
  used before it is ready. The loop itself can start earlier, and then throws without
  estimating.
\<close>

theorem C3_estimate_only_after_model_created:
  assumes "trace (run evs) = pre @ EstimatePoses m t ts # post"
  shows "SetModel m \<in> set pre \<and>
     estimates (trace (loop v now1 now2 (s\<lparr>loopModel := None\<rparr>))) = estimates (trace s)"
proof -
  have "est_ok {} (trace (run evs))" using inv_model_run[of evs] by (simp add: inv_model_def)
  then have "est_ok (created pre) (EstimatePoses m t ts # post)"
    unfolding assms by (simp add: est_ok_append)
  then have "m \<in> created pre" by simp
  then show ?thesis by (simp add: created_iff trace_loop_no_model)
qed

theorem C3_estimate_only_after_model_created_witness:
  "trace (run [OrientationResolved PORTRAIT_UP, PermissionResolved, TfReady, DetectorCreated 5,
      CameraReady (Some 7) 100 101]) =
     [SetOrientation PORTRAIT_UP, SetTfReady, SetModel 5, ImagesNext (Some 7)] @
       EstimatePoses 5 7 101 # [] \<and>
   SetModel 5 \<in> set [SetOrientation PORTRAIT_UP, SetTfReady, SetModel 5, ImagesNext (Some 7)]"
  using C3_estimate_only_after_model_created
    [of "[OrientationResolved PORTRAIT_UP, PermissionResolved, TfReady, DetectorCreated 5,
      CameraReady (Some 7) 100 101]"
      "[SetOrientation PORTRAIT_UP, SetTfReady, SetModel 5, ImagesNext (Some 7)]" 5 7 101 "[]"]
  by (simp add: run_eval)

text \<open>
  Claim C3 as it was stated fails in its first half: the camera is rendered as soon as
  \<open>tfReady\<close> is set, which the effect does before it creates the detector. Here
  \<open>onReady\<close> comes while the detector is still awaited: the loop starts, takes a tensor
  from the stream and throws, with no model.
\<close>

theorem C3_counterexample_loop_starts_without_model:
  "trace (run [OrientationResolved PORTRAIT_UP, PermissionResolved, TfReady,
      CameraReady (Some 7) 100 101]) =
     [SetOrientation PORTRAIT_UP, SetTfReady, ImagesNext (Some 7), ThrowNoModel] \<and>
   model (run [OrientationResolved PORTRAIT_UP, PermissionResolved, TfReady,
      CameraReady (Some 7) 100 101]) = None \<and>
   stage (run [OrientationResolved PORTRAIT_UP, PermissionResolved, TfReady,
      CameraReady (Some 7) 100 101]) = AwaitDetector \<and>
   cameraReady (run [OrientationResolved PORTRAIT_UP, PermissionResolved, TfReady,
      CameraReady (Some 7) 100 101]) = True"
  by (simp add: run_eval)

text \<open>
  Claim C7. When the \<open>estimatePoses\<close> of a waiting iteration returns, the rate the
  iteration reports (the state \<open>fps\<close>, set by \<open>setFps\<close>) is the floor of 1000 over the
  milliseconds between the reading of the clock just before the call, which the
  iteration kept as \<open>startTs\<close>, and the reading just after the return; 50 milliseconds
  give 20. (Equal readings give \<open>Infinity\<close>.)
\<close>

theorem C7_rate_is_floor_of_1000_over_latency:
  assumes "i < length (suspended s)" and "suspended s ! i = (t, startTs)"
  shows "(now3 \<noteq> startTs \<longrightarrow>
        fps (step (EstimateSettled i (Some ps) now3) s) =
          Num \<lfloor>1000 / real_of_int (now3 - startTs)\<rfloor>) \<and>
     (now3 - startTs = 50 \<longrightarrow> fps (step (EstimateSettled i (Some ps) now3) s) = Num 20) \<and>
     (now3 = startTs \<longrightarrow> fps (step (EstimateSettled i (Some ps) now3) s) = Infinity) \<and>
     SetFps (fps (step (EstimateSettled i (Some ps) now3) s))
       \<in> set (trace (step (EstimateSettled i (Some ps) now3) s)) \<and>
     suspended (loop (Some t) now1 now2 (s\<lparr>loopModel := Some m\<rparr>)) = suspended s @ [(t, now1)] \<and>
     trace (loop (Some t) now1 now2 (s\<lparr>loopModel := Some m\<rparr>)) =
       trace s @ [ImagesNext (Some t), EstimatePoses m t now2]"
  using assms
  by (auto simp add: loop_def loop_resume_def emit_def requestAnimationFrame_def AUTO_RENDER_def
      floor_1000_div_def Let_def)

theorem C7_rate_is_floor_of_1000_over_latency_witness:
  "0 < length (suspended (run [OrientationResolved PORTRAIT_UP, PermissionResolved, TfReady,
      DetectorCreated 5, CameraReady (Some 7) 100 101])) \<and>
   suspended (run [OrientationResolved PORTRAIT_UP, PermissionResolved, TfReady,
      DetectorCreated 5, CameraReady (Some 7) 100 101]) ! 0 = (7, 100) \<and>
   fps (run [OrientationResolved PORTRAIT_UP, PermissionResolved, TfReady, DetectorCreated 5,
      CameraReady (Some 7) 100 101, EstimateSettled 0 (Some []) 150]) = Num 20"
  using C7_rate_is_floor_of_1000_over_latency
    [of 0 "run [OrientationResolved PORTRAIT_UP, PermissionResolved, TfReady, DetectorCreated 5,
      CameraReady (Some 7) 100 101]" 7 100 150 "[]"]
  by (simp add: run_eval)

text \<open>
  Claim C8. In every run, at every moment (every prefix of the trace), the tensors
  acquired are the tensors released, in the same order, and at most one more: never two
  are in flight. An iteration begins only when every tensor acquired before has been
  released and the pipeline before it, if there is one, has run to its last step, the
  request of the animation frame.
\<close>

theorem C8_one_tensor_in_flight:
  "(\<forall>p. prefix p (trace (run evs)) \<longrightarrow>
        acquired p = released p \<or> (\<exists>t. acquired p = released p @ [t])) \<and>
   (\<forall>p v. prefix (p @ [ImagesNext v]) (trace (run evs)) \<longrightarrow>
        acquired p = released p \<and>
        (pipeline Idle p = Some Idle \<or> pipeline Idle p = Some Scheduled))"
proof -
  have a: "acquired p = released p \<or> (\<exists>t. acquired p = released p @ [t])"
    if "prefix p (trace (run evs))" for p
  proof -
    from pipeline_prefix[OF that] obtain ph where "pipeline Idle p = Some ph" by blast
    from pipeline_holding[OF this] holding_cases[of ph] show ?thesis by auto
  qed
  have b: "acquired p = released p \<and>
        (pipeline Idle p = Some Idle \<or> pipeline Idle p = Some Scheduled)"
    if "prefix (p @ [ImagesNext v]) (trace (run evs))" for p v
  proof -
    from pipeline_prefix[OF that] obtain ph where "pipeline Idle (p @ [ImagesNext v]) = Some ph"
      by blast
    then obtain ph0 where ph0: "pipeline Idle p = Some ph0" "advance ph0 (ImagesNext v) = Some ph"
      by (cases "pipeline Idle p") (simp_all add: pipeline_append split: option.splits)
    then have c: "ph0 = Idle \<or> ph0 = Scheduled" by (auto split: if_splits)
    then have "holding ph0 = []" by auto
    with pipeline_holding[OF ph0(1)] ph0(1) c show ?thesis by simp
  qed
  show ?thesis using a b by blast
qed

theorem C8_one_tensor_in_flight_witness:
  "prefix
     ([SetOrientation PORTRAIT_UP, SetTfReady, SetModel 5, ImagesNext (Some 1),
       EstimatePoses 5 1 101, SetFps (Num 20), SetPoses [], Dispose 1, UpdatePreview,
       EndFrameEXP, RequestAnimationFrame 1] @ [ImagesNext (Some 2)])
     (trace (run [OrientationResolved PORTRAIT_UP, PermissionResolved, TfReady, DetectorCreated 5,
        CameraReady (Some 1) 100 101, EstimateSettled 0 (Some []) 150,
        AnimationFrame 1 (Some 2) 160 161])) \<and>
   acquired [SetOrientation PORTRAIT_UP, SetTfReady, SetModel 5, ImagesNext (Some 1),
       EstimatePoses 5 1 101, SetFps (Num 20), SetPoses [], Dispose 1, UpdatePreview,
       EndFrameEXP, RequestAnimationFrame 1] =
   released [SetOrientation PORTRAIT_UP, SetTfReady, SetModel 5, ImagesNext (Some 1),
       EstimatePoses 5 1 101, SetFps (Num 20), SetPoses [], Dispose 1, UpdatePreview,
       EndFrameEXP, RequestAnimationFrame 1] \<and>
   pipeline Idle [SetOrientation PORTRAIT_UP, SetTfReady, SetModel 5, ImagesNext (Some 1),
       EstimatePoses 5 1 101, SetFps (Num 20), SetPoses [], Dispose 1, UpdatePreview,
       EndFrameEXP, RequestAnimationFrame 1] = Some Scheduled"
  using C8_one_tensor_in_flight
    [of "[OrientationResolved PORTRAIT_UP, PermissionResolved, TfReady, DetectorCreated 5,
        CameraReady (Some 1) 100 101, EstimateSettled 0 (Some []) 150,
        AnimationFrame 1 (Some 2) 160 161]"]
  by (simp add: run_eval)

end
